theory Spec2Isabelle
  imports Main
begin

section \<open>Python values and contacts\<close>

text \<open>
  A contact is the dictionary that \<^verbatim>\<open>csv.DictReader\<close> yields for one row: field name to
  value, where the value is a string, or \<^verbatim>\<open>None\<close> for a column the row is too short
  to fill (a \<^verbatim>\<open>NULL\<close> column of the SQLite source is \<^verbatim>\<open>None\<close> as well; its numeric and
  binary columns are not modelled). A character is one of the 256 code points of ISO-8859-1,
  the encoding that the templates and the CSV file are read with.
\<close>

datatype pyval = PyNone | PyStr string

type_synonym contact = "string \<rightharpoonup> pyval"

text \<open>\<^verbatim>\<open>str(v)\<close>\<close>

fun py_str :: "pyval \<Rightarrow> string" where
  "py_str PyNone = ''None''"
| "py_str (PyStr s) = s"

text \<open>\<^verbatim>\<open>str(n)\<close> for integers, as the f-strings of the log messages print them.\<close>

definition digit_char :: "nat \<Rightarrow> char" where
  "digit_char d = char_of (48 + d)"

function str_nat :: "nat \<Rightarrow> string" where
  "str_nat n = (if n < 10 then [digit_char n] else str_nat (n div 10) @ [digit_char (n mod 10)])"
  by pat_completeness auto
termination
  by (relation "measure id") auto

declare str_nat.simps [simp del]

definition str_int :: "int \<Rightarrow> string" where
  "str_int i = (if i < 0 then CHR ''-'' # str_nat (nat (- i)) else str_nat (nat i))"

section \<open>string.Template.safe\_substitute\<close>

text \<open>
  The placeholder pattern of Python's \<^verbatim>\<open>string.Template\<close> (delimiter \<^verbatim>\<open>$\<close>, identifier
  \<^verbatim>\<open>(?a:[_a-z][_a-z0-9]*)\<close> under \<^verbatim>\<open>re.IGNORECASE\<close>), tried at every \<^verbatim>\<open>$\<close> from left to
  right, alternatives in this order: \<^verbatim>\<open>$$\<close> (escaped), \<^verbatim>\<open>$identifier\<close> (named),
  \<^verbatim>\<open>${identifier}\<close> (braced), and the bare delimiter (invalid).
\<close>

definition is_id_start :: "char \<Rightarrow> bool" where
  "is_id_start c =
     (let n = (of_char c :: nat)
      in n = 95 \<or> (97 \<le> n \<and> n \<le> 122) \<or> (65 \<le> n \<and> n \<le> 90))"

definition is_id_char :: "char \<Rightarrow> bool" where
  "is_id_char c =
     (let n = (of_char c :: nat) in is_id_start c \<or> (48 \<le> n \<and> n \<le> 57))"

datatype match = Escaped | Named string | Braced string | Invalid

text \<open>A template is cut into the characters outside every match and the matches.\<close>

datatype piece = Text char | Match match

text \<open>\<^verbatim>\<open>mo.group()\<close>: the text a match covers.\<close>

fun group :: "match \<Rightarrow> string" where
  "group Escaped = ''$$''"
| "group (Named n) = CHR ''$'' # n"
| "group (Braced n) = ''${'' @ n @ ''}''"
| "group Invalid = ''$''"

definition braced_here :: "string \<Rightarrow> bool" where
  "braced_here ds =
     (case ds of
        [] \<Rightarrow> False
      | x # _ \<Rightarrow> is_id_start x \<and>
          (case dropWhile is_id_char ds of [] \<Rightarrow> False | r # _ \<Rightarrow> r = CHR ''}''))"

function scan :: "string \<Rightarrow> piece list" where
  "scan [] = []"
| "scan (c # cs) =
     (if c \<noteq> CHR ''$'' then Text c # scan cs
      else (case cs of
              [] \<Rightarrow> [Match Invalid]
            | d # ds \<Rightarrow>
                if d = CHR ''$'' then Match Escaped # scan ds
                else if is_id_start d then
                  Match (Named (takeWhile is_id_char cs)) # scan (dropWhile is_id_char cs)
                else if d = CHR ''{'' \<and> braced_here ds then
                  Match (Braced (takeWhile is_id_char ds)) # scan (tl (dropWhile is_id_char ds))
                else Match Invalid # scan cs))"
  by pat_completeness auto
termination
proof (relation "measure length", goal_cases)
  case 1
  show ?case by simp
next
  case (2 c cs)
  show ?case by simp
next
  case (3 c cs d ds)
  then show ?case by simp
next
  case (4 c cs d ds)
  have "length (dropWhile is_id_char cs) \<le> length cs" by (rule length_dropWhile_le)
  then show ?case by simp
next
  case (5 c cs d ds)
  have "length (tl (dropWhile is_id_char ds)) \<le> length ds"
    using length_dropWhile_le [of is_id_char ds] by simp
  with 5 show ?case by simp
next
  case (6 c cs d ds)
  show ?case by simp
qed

text \<open>
  The helper \<^verbatim>\<open>convert\<close> of \<^verbatim>\<open>safe_substitute\<close>: a named or braced match is replaced by
  \<^verbatim>\<open>str(mapping[named])\<close>, and on \<^verbatim>\<open>KeyError\<close> by its own text; an escaped delimiter by one
  delimiter; an invalid one by its own text.
\<close>

fun convert :: "contact \<Rightarrow> match \<Rightarrow> string" where
  "convert m (Named n) = (case m n of Some v \<Rightarrow> py_str v | None \<Rightarrow> group (Named n))"
| "convert m (Braced n) = (case m n of Some v \<Rightarrow> py_str v | None \<Rightarrow> group (Braced n))"
| "convert m Escaped = ''$''"
| "convert m Invalid = group Invalid"

fun replace :: "contact \<Rightarrow> piece \<Rightarrow> string" where
  "replace m (Text c) = [c]"
| "replace m (Match mo) = convert m mo"

definition safe_substitute :: "string \<Rightarrow> contact \<Rightarrow> string" where
  "safe_substitute template mapping = concat (map (replace mapping) (scan template))"

section \<open>Effects: the trace of a run and the outside world\<close>

datatype level = INFO | WARNING | ERROR

text \<open>
  What a run does to the outside, in order: a \<^verbatim>\<open>logging\<close> call, a file or database read,
  an entry into \<^verbatim>\<open>EmailSender.send_email\<close> (with its arguments), the opening of an SMTP
  session (\<^verbatim>\<open>smtplib.SMTP\<close>, \<^verbatim>\<open>ehlo\<close>, \<^verbatim>\<open>starttls\<close>, \<^verbatim>\<open>login\<close>), a message accepted by
  \<^verbatim>\<open>send_message\<close>, \<^verbatim>\<open>quit\<close>, and a \<^verbatim>\<open>time.sleep\<close> that was carried out. Logging returns normally.
\<close>

datatype event =
    Log level string
  | ReadFile string
  | ReadCsv string
  | QuerySqlite string string
  | CallSendEmail string string string "string option" "string option"
  | SmtpOpen string int string string
  | SmtpSendMessage string string string string "string option"
  | SmtpQuit
  | Sleep int

text \<open>
  How an attempt to open the session ends: \<^verbatim>\<open>smtplib.SMTP(...)\<close> itself raises (the attribute
  \<^verbatim>\<open>smtp_session\<close> is not assigned), or a later step of \<^verbatim>\<open>connect\<close> raises (it is), or all
  succeed. An exception is represented by its \<^verbatim>\<open>str(e)\<close>.
\<close>

datatype connect_outcome = Connected | Refused string | Handshake_failed string

text \<open>
  The outside world answers each external call; the answer may depend on everything that
  happened before (the trace so far). \<open>Inl\<close> and \<open>Some\<close> carry the text of an exception of
  class \<^verbatim>\<open>Exception\<close>.
\<close>

record env =
  file_read :: "string \<Rightarrow> event list \<Rightarrow> string + string"
  csv_rows :: "string \<Rightarrow> event list \<Rightarrow> string + contact list"
  sqlite_rows :: "string \<Rightarrow> string \<Rightarrow> event list \<Rightarrow> string + contact list"
  smtp_open :: "string \<Rightarrow> int \<Rightarrow> string \<Rightarrow> string \<Rightarrow> event list \<Rightarrow> connect_outcome"
  smtp_send_message ::
    "string \<Rightarrow> string \<Rightarrow> string \<Rightarrow> string \<Rightarrow> string option \<Rightarrow> event list \<Rightarrow> string option"
  smtp_quit :: "event list \<Rightarrow> string option"

abbreviation (input) e_acute :: char where "e_acute \<equiv> CHR 0xE9"
abbreviation (input) e_grave :: char where "e_grave \<equiv> CHR 0xE8"
abbreviation (input) a_grave :: char where "a_grave \<equiv> CHR 0xE0"
abbreviation (input) apostrophe :: char where "apostrophe \<equiv> CHR 0x27"

section \<open>EmailSender\<close>

datatype smtp = SMTP string int

record EmailSender =
  server :: string
  port :: int
  username :: string
  password :: string
  smtp_session :: "smtp option"

definition connect :: "env \<Rightarrow> EmailSender \<Rightarrow> event list \<Rightarrow> bool \<times> EmailSender \<times> event list" where
  "connect E self tr =
     (let tr1 = tr @ [SmtpOpen (server self) (port self) (username self) (password self)];
          session = SMTP (server self) (port self)
      in case smtp_open E (server self) (port self) (username self) (password self) tr of
           Connected \<Rightarrow>
             (True, self\<lparr>smtp_session := Some session\<rparr>,
              tr1 @ [Log INFO (''Connexion SMTP '' @ [e_acute] @ ''tablie avec succ'' @ [e_grave] @ ''s'')])
         | Refused e \<Rightarrow>
             (False, self, tr1 @ [Log ERROR (''Erreur de connexion SMTP: '' @ e)])
         | Handshake_failed e \<Rightarrow>
             (False, self\<lparr>smtp_session := Some session\<rparr>,
              tr1 @ [Log ERROR (''Erreur de connexion SMTP: '' @ e)]))"

text \<open>\<^verbatim>\<open>quit()\<close> is not guarded: when it raises, the exception leaves \<^verbatim>\<open>disconnect\<close>.\<close>

definition disconnect :: "env \<Rightarrow> EmailSender \<Rightarrow> event list \<Rightarrow> (string + unit) \<times> event list" where
  "disconnect E self tr =
     (case smtp_session self of
        None \<Rightarrow> (Inr (), tr)
      | Some _ \<Rightarrow>
          (case smtp_quit E tr of
             Some e \<Rightarrow> (Inl e, tr @ [SmtpQuit])
           | None \<Rightarrow>
               (Inr (),
                tr @ [SmtpQuit, Log INFO (''D'' @ [e_acute] @ ''connexion SMTP r'' @ [e_acute] @ ''ussie'')])))"

definition error_sending :: "string \<Rightarrow> string \<Rightarrow> event" where
  "error_sending to_email e =
     Log ERROR (''Erreur lors de l'envoi de l'email '' @ [a_grave] @ '' '' @ to_email @ '': '' @ e)"

text \<open>
  \<^verbatim>\<open>send_email\<close>: connect when there is no session, giving up with \<^verbatim>\<open>False\<close> when that fails;
  then the \<^verbatim>\<open>try\<close> block (building the MIME message and \<^verbatim>\<open>send_message\<close>), where every
  \<^verbatim>\<open>Exception\<close> is logged and turned into \<^verbatim>\<open>False\<close>. A \<^verbatim>\<open>None\<close> HTML body makes
  \<^verbatim>\<open>MIMEText\<close> raise; the text part is attached only when truthy.
\<close>

definition send_email ::
  "env \<Rightarrow> EmailSender \<Rightarrow> string \<Rightarrow> string \<Rightarrow> string \<Rightarrow> string option \<Rightarrow> string option \<Rightarrow>
   event list \<Rightarrow> bool \<times> EmailSender \<times> event list" where
  "send_email E self from_email to_email subject message_html message_text tr =
     (let tr0 = tr @ [CallSendEmail from_email to_email subject message_html message_text];
          (connected, self1, tr1) =
            (case smtp_session self of
               None \<Rightarrow> connect E self tr0
             | Some _ \<Rightarrow> (True, self, tr0))
      in if \<not> connected then (False, self1, tr1)
         else
           (case message_html of
              None \<Rightarrow>
                (False, self1,
                 tr1 @ [error_sending to_email
                          ([apostrophe] @ ''NoneType'' @ [apostrophe] @ '' object has no attribute ''
                           @ [apostrophe] @ ''encode'' @ [apostrophe])])
            | Some html \<Rightarrow>
                (let text_part =
                       (case message_text of
                          None \<Rightarrow> None
                        | Some t \<Rightarrow> if t = [] then None else Some t)
                 in case smtp_send_message E from_email to_email subject html text_part tr1 of
                      Some e \<Rightarrow> (False, self1, tr1 @ [error_sending to_email e])
                    | None \<Rightarrow>
                        (True, self1,
                         tr1 @ [SmtpSendMessage from_email to_email subject html text_part,
                                Log INFO (''Email envoy'' @ [e_acute] @ '' '' @ [a_grave] @ '' '' @ to_email)]))))"

section \<open>ContactManager and TemplateManager\<close>

definition get_contacts_from_csv :: "env \<Rightarrow> string \<Rightarrow> event list \<Rightarrow> contact list \<times> event list" where
  "get_contacts_from_csv E csv_file tr =
     (case csv_rows E csv_file tr of
        Inr contacts \<Rightarrow>
          (contacts,
           tr @ [ReadCsv csv_file,
                 Log INFO (''Chargement de '' @ str_nat (length contacts) @ '' contacts depuis '' @ csv_file)])
      | Inl e \<Rightarrow>
          ([], tr @ [ReadCsv csv_file,
                     Log ERROR (''Erreur lors du chargement du fichier CSV: '' @ e)]))"

definition get_contacts_from_sqlite ::
  "env \<Rightarrow> string \<Rightarrow> string option \<Rightarrow> event list \<Rightarrow> contact list \<times> event list" where
  "get_contacts_from_sqlite E db_file query tr =
     (let query1 = (case query of None \<Rightarrow> ''SELECT * FROM contacts WHERE active = 1'' | Some q \<Rightarrow> q)
      in case sqlite_rows E db_file query1 tr of
           Inr contacts \<Rightarrow>
             (contacts,
              tr @ [QuerySqlite db_file query1,
                    Log INFO (''Chargement de '' @ str_nat (length contacts)
                              @ '' contacts depuis la base SQLite'')])
         | Inl e \<Rightarrow>
             ([], tr @ [QuerySqlite db_file query1,
                        Log ERROR (''Erreur lors de la connexion '' @ [a_grave] @ '' la base SQLite: '' @ e)]))"

definition load_template :: "env \<Rightarrow> string \<Rightarrow> event list \<Rightarrow> string option \<times> event list" where
  "load_template E template_file tr =
     (case file_read E template_file tr of
        Inr template_content \<Rightarrow> (Some template_content, tr @ [ReadFile template_file])
      | Inl e \<Rightarrow>
          (None, tr @ [ReadFile template_file,
                       Log ERROR (''Erreur lors du chargement du mod'' @ [e_grave] @ ''le: '' @ e)]))"

text \<open>
  \<^verbatim>\<open>personalize_message\<close> wraps the substitution in \<^verbatim>\<open>try\<close>/\<^verbatim>\<open>except Exception\<close> and returns
  \<^verbatim>\<open>None\<close> from the handler. With a string template and a dictionary neither
  \<^verbatim>\<open>Template(...)\<close> nor \<^verbatim>\<open>safe_substitute\<close> raises, so the handler is never entered.
\<close>

definition personalize_message :: "string \<Rightarrow> contact \<Rightarrow> string option" where
  "personalize_message template_content contact_data =
     Some (safe_substitute template_content contact_data)"

section \<open>send\_bulk\_emails\<close>

text \<open>
  \<^verbatim>\<open>recipient = contact.get('email')\<close> followed by \<^verbatim>\<open>if not recipient\<close>: the address when the
  field is there and is a non-empty string, \<open>None\<close> when it is missing, \<^verbatim>\<open>None\<close> or empty.
\<close>

definition recipient :: "contact \<Rightarrow> string option" where
  "recipient contact =
     (case contact ''email'' of
        Some (PyStr s) \<Rightarrow> if s = [] then None else Some s
      | _ \<Rightarrow> None)"

definition warning_no_email :: "nat \<Rightarrow> event" where
  "warning_no_email i =
     Log WARNING (''Contact '' @ str_nat (i + 1) @ '' sans adresse email, ignor'' @ [e_acute])"

text \<open>\<^verbatim>\<open>max_emails is not None and i >= max_emails\<close>\<close>

definition limit_reached :: "int option \<Rightarrow> nat \<Rightarrow> bool" where
  "limit_reached max_emails i = (case max_emails of None \<Rightarrow> False | Some m \<Rightarrow> int i \<ge> m)"

text \<open>
  \<^verbatim>\<open>time.sleep(secs)\<close> for an \<^verbatim>\<open>int\<close> argument: CPython keeps the duration as a signed 64-bit
  number of nanoseconds and raises \<^verbatim>\<open>OverflowError\<close>, without sleeping, when the seconds do
  not fit, that is from 9223372037 on. (A negative argument raises too; the loop only sleeps
  when \<^verbatim>\<open>delay > 0\<close>.) The \<^verbatim>\<open>--delay\<close> option is an unbounded \<^verbatim>\<open>int\<close>.
\<close>

definition sleep_limit :: int where
  "sleep_limit = 9223372037"

definition time_sleep :: "int \<Rightarrow> event list \<Rightarrow> (string + unit) \<times> event list" where
  "time_sleep secs tr =
     (if secs < 0 then (Inl ''sleep length must be non-negative'', tr)
      else if secs \<ge> sleep_limit then (Inl ''timestamp too large to convert to C _PyTime_t'', tr)
      else (Inr (), tr @ [Sleep secs]))"

text \<open>
  The state of the loop: \<^verbatim>\<open>sent_count\<close>, \<^verbatim>\<open>failed_count\<close>, the sender object and the trace.
  One pass through the body of \<^verbatim>\<open>for i, contact in enumerate(contacts)\<close>, after the \<^verbatim>\<open>break\<close>
  test: personalise, then either skip (\<^verbatim>\<open>continue\<close>) or send, count and sleep. The sleep is
  outside every \<^verbatim>\<open>try\<close>: when it raises, the pass ends with the exception (\<open>Inl\<close>), in the state
  reached so far.
\<close>

type_synonym loop_state = "nat \<times> nat \<times> EmailSender \<times> event list"

definition loop_body ::
  "env \<Rightarrow> string \<Rightarrow> string \<Rightarrow> string \<Rightarrow> string option \<Rightarrow> int \<Rightarrow> int \<Rightarrow>
   nat \<Rightarrow> contact \<Rightarrow> loop_state \<Rightarrow> (string + unit) \<times> loop_state" where
  "loop_body E from_email subject_template html_template text_template delay total_emails
     i contact st =
     (case st of
        (sent_count, failed_count, email_sender, tr) \<Rightarrow>
          (let subject = safe_substitute subject_template contact;
               html_message = personalize_message html_template contact;
               text_message =
                 (case text_template of
                    None \<Rightarrow> None
                  | Some t \<Rightarrow> if t = [] then None else personalize_message t contact)
           in case recipient contact of
                None \<Rightarrow>
                  (Inr (), sent_count, Suc failed_count, email_sender, tr @ [warning_no_email i])
              | Some to_email \<Rightarrow>
                  (case send_email E email_sender from_email to_email subject html_message
                          text_message tr of
                     (success, email_sender1, tr1) \<Rightarrow>
                       (let sent_count1 = (if success then Suc sent_count else sent_count);
                            failed_count1 = (if success then failed_count else Suc failed_count)
                        in if int i < total_emails - 1 \<and> delay > 0 then
                             (case time_sleep delay tr1 of
                                (r, tr2) \<Rightarrow> (r, sent_count1, failed_count1, email_sender1, tr2))
                           else (Inr (), sent_count1, failed_count1, email_sender1, tr1)))))"

text \<open>The loop: it ends at the end of the list, at the \<^verbatim>\<open>break\<close>, or with an exception of a pass.\<close>

fun bulk_loop ::
  "env \<Rightarrow> string \<Rightarrow> string \<Rightarrow> string \<Rightarrow> string option \<Rightarrow> int \<Rightarrow> int option \<Rightarrow> int \<Rightarrow>
   nat \<Rightarrow> contact list \<Rightarrow> loop_state \<Rightarrow> (string + unit) \<times> loop_state" where
  "bulk_loop E from_email subject_template html_template text_template delay max_emails
     total_emails i [] st = (Inr (), st)"
| "bulk_loop E from_email subject_template html_template text_template delay max_emails
     total_emails i (contact # rest) st =
     (if limit_reached max_emails i then (Inr (), st)
      else
        (case loop_body E from_email subject_template html_template text_template delay
                total_emails i contact st of
           (Inl e, st1) \<Rightarrow> (Inl e, st1)
         | (Inr _, st1) \<Rightarrow>
             bulk_loop E from_email subject_template html_template text_template delay
               max_emails total_emails (Suc i) rest st1))"

definition test_mode_notice :: event where
  "test_mode_notice =
     Log INFO (''Mode test activ'' @ [e_acute] @ '': envoi limit'' @ [e_acute] @ '' '' @ [a_grave]
               @ '' 3 emails'')"

definition start_notice :: "int \<Rightarrow> event" where
  "start_notice total_emails =
     Log INFO (''D'' @ [e_acute] @ ''but de l'envoi de '' @ str_int total_emails @ '' emails'')"

definition summary_notice :: "nat \<Rightarrow> nat \<Rightarrow> event" where
  "summary_notice sent_count failed_count =
     Log INFO (''Envoi termin'' @ [e_acute] @ '': '' @ str_nat sent_count @ '' emails envoy''
               @ [e_acute] @ ''s, '' @ str_nat failed_count @ '' '' @ [e_acute] @ ''checs'')"

text \<open>
  \<^verbatim>\<open>send_bulk_emails\<close> returns the tally (\<open>Inr\<close>) after the summary line, or ends with the
  exception that left the loop (\<open>Inl\<close>), with no summary and no tally.
\<close>

definition send_bulk_emails ::
  "env \<Rightarrow> EmailSender \<Rightarrow> string \<Rightarrow> contact list \<Rightarrow> string \<Rightarrow> string \<Rightarrow> string option \<Rightarrow>
   int \<Rightarrow> bool \<Rightarrow> int option \<Rightarrow> event list \<Rightarrow>
   (string + nat \<times> nat) \<times> EmailSender \<times> event list" where
  "send_bulk_emails E email_sender from_email contacts subject_template html_template
     text_template delay test_mode max_emails tr =
     (let limited = (test_mode \<and> (case max_emails of None \<Rightarrow> True | Some m \<Rightarrow> m > 3));
          max_emails1 = (if limited then Some 3 else max_emails);
          tr1 = (if limited then tr @ [test_mode_notice] else tr);
          total_emails =
            (case max_emails1 of
               None \<Rightarrow> int (length contacts)
             | Some m \<Rightarrow> min (int (length contacts)) m);
          tr2 = tr1 @ [start_notice total_emails]
      in case bulk_loop E from_email subject_template html_template text_template delay
                max_emails1 total_emails 0 contacts (0, 0, email_sender, tr2) of
           (Inl e, sent_count, failed_count, email_sender1, tr3) \<Rightarrow> (Inl e, email_sender1, tr3)
         | (Inr _, sent_count, failed_count, email_sender1, tr3) \<Rightarrow>
             (Inr (sent_count, failed_count), email_sender1,
              tr3 @ [summary_notice sent_count failed_count]))"

section \<open>main\<close>

datatype source = Csv | Sqlite

text \<open>The parsed command line (\<^verbatim>\<open>argparse\<close>: \<^verbatim>\<open>--source\<close> has two choices, the numbers are \<^verbatim>\<open>int\<close>).\<close>

record args =
  arg_source :: source
  arg_source_file :: string
  arg_template :: string
  arg_text_template :: "string option"
  arg_subject :: string
  arg_from_email :: string
  arg_smtp_server :: string
  arg_smtp_port :: int
  arg_smtp_user :: string
  arg_smtp_password :: string
  arg_delay :: int
  arg_max_emails :: "int option"
  arg_test :: bool
  arg_query :: "string option"

text \<open>
  \<^verbatim>\<open>try: body finally: cleanup\<close> on a state: the cleanup runs on the state the body leaves,
  whether the body returned or raised (\<open>Inl\<close>); an exception of the cleanup replaces the
  body's outcome.
\<close>

definition try_finally ::
  "('s \<Rightarrow> (string + 'a) \<times> 's) \<Rightarrow> ('s \<Rightarrow> (string + unit) \<times> 's) \<Rightarrow> 's \<Rightarrow> (string + 'a) \<times> 's" where
  "try_finally body cleanup s =
     (case body s of
        (r, s1) \<Rightarrow>
          (case cleanup s1 of
             (Inl e, s2) \<Rightarrow> (Inl e, s2)
           | (Inr _, s2) \<Rightarrow> (r, s2)))"

text \<open>The optional text template: loaded only when \<^verbatim>\<open>args.text_template\<close> is truthy.\<close>

definition load_text_template :: "env \<Rightarrow> args \<Rightarrow> event list \<Rightarrow> string option \<times> event list" where
  "load_text_template E a tr =
     (case arg_text_template a of
        None \<Rightarrow> (None, tr)
      | Some p \<Rightarrow> if p = [] then (None, tr) else load_template E p tr)"

text \<open>The contacts, from the source that \<^verbatim>\<open>args.source\<close> names.\<close>

definition load_contacts :: "env \<Rightarrow> args \<Rightarrow> event list \<Rightarrow> contact list \<times> event list" where
  "load_contacts E a tr =
     (case arg_source a of
        Csv \<Rightarrow> get_contacts_from_csv E (arg_source_file a) tr
      | Sqlite \<Rightarrow> get_contacts_from_sqlite E (arg_source_file a) (arg_query a) tr)"

text \<open>
  The body and the cleanup of the \<^verbatim>\<open>try\<close> statement that ends \<^verbatim>\<open>main\<close>: the body is the
  call of \<^verbatim>\<open>send_bulk_emails\<close>, whose tally \<^verbatim>\<open>main\<close> drops and whose exception it lets through.
\<close>

definition send_phase ::
  "env \<Rightarrow> args \<Rightarrow> contact list \<Rightarrow> string \<Rightarrow> string option \<Rightarrow> EmailSender \<times> event list \<Rightarrow>
   (string + unit) \<times> EmailSender \<times> event list" where
  "send_phase E a contacts html_template text_template s =
     (case send_bulk_emails E (fst s) (arg_from_email a) contacts (arg_subject a) html_template
             text_template (arg_delay a) (arg_test a) (arg_max_emails a) (snd s) of
        (Inl e, email_sender1, tr1) \<Rightarrow> (Inl e, email_sender1, tr1)
      | (Inr _, email_sender1, tr1) \<Rightarrow> (Inr (), email_sender1, tr1))"

definition close_phase ::
  "env \<Rightarrow> EmailSender \<times> event list \<Rightarrow> (string + unit) \<times> EmailSender \<times> event list" where
  "close_phase E s = (case disconnect E (fst s) (snd s) of (r, tr1) \<Rightarrow> (r, fst s, tr1))"

definition new_sender :: "args \<Rightarrow> EmailSender" where
  "new_sender a =
     \<lparr>server = arg_smtp_server a, port = arg_smtp_port a, username = arg_smtp_user a,
      password = arg_smtp_password a, smtp_session = None\<rparr>"

definition template_error :: event where
  "template_error = Log ERROR (''Impossible de charger le mod'' @ [e_grave] @ ''le HTML'')"

definition no_contact_error :: event where
  "no_contact_error = Log ERROR (''Aucun contact charg'' @ [e_acute])"

definition main :: "env \<Rightarrow> args \<Rightarrow> event list \<Rightarrow> (string + unit) \<times> event list" where
  "main E a tr =
     (case load_template E (arg_template a) tr of
        (html_template, tr1) \<Rightarrow>
          (case html_template of
             None \<Rightarrow> (Inr (), tr1 @ [template_error])
           | Some html \<Rightarrow>
               if html = [] then (Inr (), tr1 @ [template_error])
               else
                 (case load_text_template E a tr1 of
                    (text_template, tr2) \<Rightarrow>
                      (case load_contacts E a tr2 of
                         (contacts, tr3) \<Rightarrow>
                           if contacts = [] then (Inr (), tr3 @ [no_contact_error])
                           else
                             (case try_finally
                                     (send_phase E a contacts html text_template)
                                     (close_phase E) (new_sender a, tr3) of
                                (r, _, tr4) \<Rightarrow> (r, tr4))))))"

section \<open>What a trace shows of a run\<close>

text \<open>
  The steps of the send loop that a trace shows: a call of \<^verbatim>\<open>send_email\<close> for a recipient,
  a contact skipped for want of an address (the only \<^verbatim>\<open>WARNING\<close> of the program), and a
  \<^verbatim>\<open>time.sleep\<close>.
\<close>

datatype step = Attempt string | Skip | Pause int

fun step_of :: "event \<Rightarrow> step list" where
  "step_of (CallSendEmail f t s h x) = [Attempt t]"
| "step_of (Log WARNING m) = [Skip]"
| "step_of (Sleep d) = [Pause d]"
| "step_of _ = []"

definition schedule :: "event list \<Rightarrow> step list" where
  "schedule tr = concat (map step_of tr)"

fun is_pause :: "step \<Rightarrow> bool" where
  "is_pause (Pause d) = True"
| "is_pause _ = False"

text \<open>One entry for each contact the loop went through, in order.\<close>

definition iterations :: "event list \<Rightarrow> step list" where
  "iterations tr = filter (\<lambda>s. \<not> is_pause s) (schedule tr)"


text \<open>What the loop does with one contact: the address it sends to, or a skip.\<close>

definition visit :: "contact \<Rightarrow> step" where
  "visit c = (case recipient c of None \<Rightarrow> Skip | Some t \<Rightarrow> Attempt t)"

text \<open>Everything that touches the mail transport.\<close>

fun is_transport :: "event \<Rightarrow> bool" where
  "is_transport (CallSendEmail f t s h x) = True"
| "is_transport (SmtpOpen s p u w) = True"
| "is_transport (SmtpSendMessage f t s h x) = True"
| "is_transport SmtpQuit = True"
| "is_transport _ = False"

definition transport_events :: "event list \<Rightarrow> event list" where
  "transport_events tr = filter is_transport tr"

text \<open>
  What one pass of the loop body adds to the schedule of a trace, and whether the pass ends
  with the exception of \<^verbatim>\<open>time.sleep\<close>: it does when a send was attempted, a sleep is due and
  the delay is one that \<^verbatim>\<open>time.sleep\<close> refuses.
\<close>

definition pass_raises :: "int \<Rightarrow> int \<Rightarrow> nat \<Rightarrow> contact \<Rightarrow> bool" where
  "pass_raises total_emails delay i c =
     (recipient c \<noteq> None \<and> int i < total_emails - 1 \<and> delay > 0 \<and> delay \<ge> sleep_limit)"

definition pass :: "int \<Rightarrow> int \<Rightarrow> nat \<Rightarrow> contact \<Rightarrow> step list" where
  "pass total_emails delay i c =
     (case recipient c of
        None \<Rightarrow> [Skip]
      | Some t \<Rightarrow>
          Attempt t # (if int i < total_emails - 1 \<and> delay > 0 \<and> delay < sleep_limit
                       then [Pause delay] else []))"

text \<open>
  The schedule of the loop over a list of contacts from index \<open>i\<close> on, whether the loop
  runs to the end of that list, and how many of its contacts the loop goes through.
\<close>

fun plan :: "int \<Rightarrow> int \<Rightarrow> nat \<Rightarrow> contact list \<Rightarrow> step list" where
  "plan tot delay i [] = []"
| "plan tot delay i (c # cs) =
     pass tot delay i c @ (if pass_raises tot delay i c then [] else plan tot delay (Suc i) cs)"

fun completes :: "int \<Rightarrow> int \<Rightarrow> nat \<Rightarrow> contact list \<Rightarrow> bool" where
  "completes tot delay i [] = True"
| "completes tot delay i (c # cs) =
     (if pass_raises tot delay i c then False else completes tot delay (Suc i) cs)"

fun reach :: "int \<Rightarrow> int \<Rightarrow> nat \<Rightarrow> contact list \<Rightarrow> nat" where
  "reach tot delay i [] = 0"
| "reach tot delay i (c # cs) =
     Suc (if pass_raises tot delay i c then 0 else reach tot delay (Suc i) cs)"

text \<open>The contacts that the \<^verbatim>\<open>break\<close> test lets through, from index \<open>i\<close> on.\<close>

definition allowed :: "int option \<Rightarrow> nat \<Rightarrow> contact list \<Rightarrow> contact list" where
  "allowed max_emails i cs =
     (case max_emails of None \<Rightarrow> cs | Some m \<Rightarrow> take (nat (m - int i)) cs)"

text \<open>\<^verbatim>\<open>max_emails\<close> and \<^verbatim>\<open>total_emails\<close> as \<^verbatim>\<open>send_bulk_emails\<close> computes them before the loop.\<close>

definition effective_limit :: "bool \<Rightarrow> int option \<Rightarrow> int option" where
  "effective_limit test_mode max_emails =
     (if test_mode \<and> (case max_emails of None \<Rightarrow> True | Some m \<Rightarrow> m > 3) then Some 3
      else max_emails)"

definition effective_total :: "bool \<Rightarrow> int option \<Rightarrow> nat \<Rightarrow> int" where
  "effective_total test_mode max_emails n =
     (case effective_limit test_mode max_emails of
        None \<Rightarrow> int n
      | Some m \<Rightarrow> min (int n) m)"


definition processed :: "event list \<Rightarrow> event list \<Rightarrow> nat" where
  "processed tr tr' = length (iterations tr') - length (iterations tr)"

text \<open>The text of the template that a piece covers.\<close>

fun piece_text :: "piece \<Rightarrow> string" where
  "piece_text (Text c) = [c]"
| "piece_text (Match mo) = group mo"

section \<open>Example inputs\<close>

definition alice :: contact where
  "alice = map_of [(''email'', PyStr ''alice@example.org''), (''name'', PyStr ''Alice'')]"

definition bob :: contact where
  "bob = map_of [(''email'', PyStr ''bob@example.org''), (''name'', PyStr ''Bob'')]"

text \<open>The contact \<^verbatim>\<open>{"email": "", "name": "A"}\<close>.\<close>

definition anonymous :: contact where
  "anonymous = map_of [(''email'', PyStr []), (''name'', PyStr ''A'')]"

text \<open>A world where every external call succeeds, and one where the mail relay refuses.\<close>

definition reliable :: env where
  "reliable =
     \<lparr>file_read = (\<lambda>p tr. Inr ''<p>Bonjour $name</p>''),
      csv_rows = (\<lambda>p tr. Inr [alice, anonymous, bob]),
      sqlite_rows = (\<lambda>p q tr. Inr [alice, bob]),
      smtp_open = (\<lambda>h p u w tr. Connected),
      smtp_send_message = (\<lambda>f t s h x tr. None),
      smtp_quit = (\<lambda>tr. None)\<rparr>"

definition unreachable :: env where
  "unreachable =
     \<lparr>file_read = (\<lambda>p tr. if p = ''empty.html'' then Inr [] else Inr ''<p>Bonjour $name</p>''),
      csv_rows = (\<lambda>p tr. Inl ''No such file''),
      sqlite_rows = (\<lambda>p q tr. Inl ''no such table: contacts''),
      smtp_open = (\<lambda>h p u w tr. Refused ''Connection refused''),
      smtp_send_message = (\<lambda>f t s h x tr. Some ''please run connect() first''),
      smtp_quit = (\<lambda>tr. Some ''Connection unexpectedly closed'')\<rparr>"


definition example_args :: args where
  "example_args =
     \<lparr>arg_source = Csv, arg_source_file = ''contacts.csv'', arg_template = ''mail.html'',
      arg_text_template = None, arg_subject = ''Bonjour $name'',
      arg_from_email = ''me@example.org'', arg_smtp_server = ''smtp.example.org'',
      arg_smtp_port = 587, arg_smtp_user = ''me'', arg_smtp_password = ''secret'',
      arg_delay = 5, arg_max_emails = None, arg_test = False, arg_query = None\<rparr>"

section \<open>Auxiliary facts about traces and the loop\<close>

lemma schedule_append: "schedule (xs @ ys) = schedule xs @ schedule ys"
  by (simp add: schedule_def)

lemma schedule_Nil: "schedule [] = []"
  by (simp add: schedule_def)

lemma schedule_Cons: "schedule (e # es) = step_of e @ schedule es"
  by (simp add: schedule_def)

lemma schedule_error_sending: "step_of (error_sending t e) = []"
  by (simp add: error_sending_def)

lemma schedule_warning: "step_of (warning_no_email i) = [Skip]"
  by (simp add: warning_no_email_def)

lemma step_of_notices:
  "step_of test_mode_notice = []" "step_of (start_notice n) = []" "step_of (summary_notice a b) = []"
  by (simp_all add: test_mode_notice_def start_notice_def summary_notice_def)

lemma connect_schedule:
  "connect E s tr = (b, s', tr') \<Longrightarrow> schedule tr' = schedule tr"
  by (auto simp: connect_def Let_def schedule_append schedule_Cons schedule_Nil
           split: connect_outcome.splits)

lemma send_email_schedule:
  assumes "send_email E s f t su h x tr = (b, s', tr')"
  shows "schedule tr' = schedule tr @ [Attempt t]"
proof -
  obtain c s1 tr1 where
    c: "(case smtp_session s of None \<Rightarrow> connect E s (tr @ [CallSendEmail f t su h x])
         | Some _ \<Rightarrow> (True, s, tr @ [CallSendEmail f t su h x])) = (c, s1, tr1)"
    by (metis prod_cases3)
  have tr1: "schedule tr1 = schedule tr @ [Attempt t]"
    using c connect_schedule [of E s "tr @ [CallSendEmail f t su h x]" c s1 tr1]
    by (auto simp: schedule_append schedule_Cons schedule_Nil split: option.splits)
  from assms c have "schedule tr' = schedule tr1"
    by (auto simp: send_email_def Let_def schedule_append schedule_Cons schedule_Nil
                   schedule_error_sending
             split: option.splits if_splits)
  with tr1 show ?thesis by simp
qed

lemma loop_body_effect:
  assumes "loop_body E f su h x delay tot i c (sent, failed, s, tr) = (r, sent', failed', s', tr')"
  shows "schedule tr' = schedule tr @ pass tot delay i c"
    and "(sent' = Suc sent \<and> failed' = failed) \<or> (sent' = sent \<and> failed' = Suc failed)"
    and "(r = Inr ()) = (\<not> pass_raises tot delay i c)"
proof -
  have both: "schedule tr' = schedule tr @ pass tot delay i c
              \<and> (r = Inr ()) = (\<not> pass_raises tot delay i c)"
  proof (cases "recipient c")
    case None
    with assms show ?thesis
      by (auto simp: loop_body_def Let_def pass_def pass_raises_def schedule_append schedule_Cons
                     schedule_Nil schedule_warning)
  next
    case (Some t)
    obtain b s1 tr1 where
      se: "send_email E s f t (safe_substitute su c) (personalize_message h c)
             (case x of None \<Rightarrow> None | Some y \<Rightarrow> if y = [] then None else personalize_message y c) tr
           = (b, s1, tr1)"
      using prod_cases3 by blast
    from send_email_schedule [OF se] have sch: "schedule tr1 = schedule tr @ [Attempt t]" .
    from assms Some se sch have "schedule tr' = schedule tr @ pass tot delay i c"
      by (auto simp: loop_body_def Let_def pass_def time_sleep_def schedule_append schedule_Cons
                     schedule_Nil
               split: if_splits)
    moreover from assms Some se have "(r = Inr ()) = (\<not> pass_raises tot delay i c)"
      by (auto simp: loop_body_def Let_def pass_raises_def time_sleep_def split: if_splits)
    ultimately show ?thesis by simp
  qed
  from both show "schedule tr' = schedule tr @ pass tot delay i c"
    by simp
  from both show "(r = Inr ()) = (\<not> pass_raises tot delay i c)"
    by simp
  show "(sent' = Suc sent \<and> failed' = failed) \<or> (sent' = sent \<and> failed' = Suc failed)"
    using assms
    by (auto simp: loop_body_def Let_def split: option.splits prod.splits if_splits)
qed

lemma allowed_Nil: "allowed mx i [] = []"
  by (simp add: allowed_def split: option.splits)

lemma allowed_stop: "limit_reached mx i \<Longrightarrow> allowed mx i cs = []"
  by (auto simp: allowed_def limit_reached_def split: option.splits)

lemma allowed_go: "\<not> limit_reached mx i \<Longrightarrow> allowed mx i (c # cs) = c # allowed mx (Suc i) cs"
proof (cases mx)
  case None
  then show ?thesis by (simp add: allowed_def)
next
  case (Some m)
  assume "\<not> limit_reached mx i"
  with Some have "int i < m" by (simp add: limit_reached_def)
  then have "nat (m - int i) = Suc (nat (m - int (Suc i)))" by simp
  with Some show ?thesis by (simp add: allowed_def)
qed

lemma bulk_loop_effect:
  "bulk_loop E f su h x delay mx tot i cs (sent, failed, s, tr) = (r, sent', failed', s', tr') \<Longrightarrow>
   schedule tr' = schedule tr @ plan tot delay i (allowed mx i cs)
   \<and> sent' + failed' = sent + failed + reach tot delay i (allowed mx i cs)
   \<and> (r = Inr ()) = completes tot delay i (allowed mx i cs)"
proof (induction cs arbitrary: i sent failed s tr)
  case Nil
  then show ?case by (simp add: allowed_Nil)
next
  case (Cons c cs)
  show ?case
  proof (cases "limit_reached mx i")
    case True
    with Cons.prems show ?thesis by (simp add: allowed_stop)
  next
    case False
    obtain r1 sent1 failed1 s1 tr1 where
      body: "loop_body E f su h x delay tot i c (sent, failed, s, tr)
             = (r1, sent1, failed1, s1, tr1)"
      using prod_cases5 by blast
    note b1 = loop_body_effect(1) [OF body]
    note b2 = loop_body_effect(2) [OF body]
    note b3 = loop_body_effect(3) [OF body]
    show ?thesis
    proof (cases "pass_raises tot delay i c")
      case True
      with b3 obtain e where r1: "r1 = Inl e"
        by (cases r1) auto
      from Cons.prems False body r1
      have "(r, sent', failed', s', tr') = (Inl e, sent1, failed1, s1, tr1)"
        by simp
      with b1 b2 True show ?thesis
        by (auto simp: allowed_go [OF False])
    next
      case no_raise: False
      with b3 have r1: "r1 = Inr ()"
        by simp
      from Cons.prems False body r1 have
        rest: "bulk_loop E f su h x delay mx tot (Suc i) cs (sent1, failed1, s1, tr1)
               = (r, sent', failed', s', tr')"
        by simp
      from Cons.IH [OF rest] b1 b2 no_raise show ?thesis
        by (auto simp: allowed_go [OF False])
    qed
  qed
qed

lemma send_bulk_effect:
  assumes "send_bulk_emails E s f cs su h x delay test mx tr = (r, s', tr')"
  shows "schedule tr' = schedule tr
           @ plan (effective_total test mx (length cs)) delay 0 (allowed (effective_limit test mx) 0 cs)"
    and "case r of
           Inl e \<Rightarrow> \<not> completes (effective_total test mx (length cs)) delay 0
                        (allowed (effective_limit test mx) 0 cs)
         | Inr (sent, failed) \<Rightarrow>
             completes (effective_total test mx (length cs)) delay 0
               (allowed (effective_limit test mx) 0 cs)
             \<and> sent + failed = reach (effective_total test mx (length cs)) delay 0
                                 (allowed (effective_limit test mx) 0 cs)"
proof -
  let ?mx = "effective_limit test mx"
  let ?tot = "effective_total test mx (length cs)"
  let ?tr2 = "(if test \<and> (case mx of None \<Rightarrow> True | Some m \<Rightarrow> m > 3)
               then tr @ [test_mode_notice] else tr) @ [start_notice ?tot]"
  obtain r1 a b s1 tr3 where
    loop: "bulk_loop E f su h x delay ?mx ?tot 0 cs (0, 0, s, ?tr2) = (r1, a, b, s1, tr3)"
    using prod_cases5 by blast
  have sch2: "schedule ?tr2 = schedule tr"
    by (simp add: schedule_append schedule_Cons schedule_Nil step_of_notices)
  note eff = bulk_loop_effect [OF loop]
  have unf: "send_bulk_emails E s f cs su h x delay test mx tr
             = (case r1 of Inl e \<Rightarrow> (Inl e, s1, tr3)
                | Inr u \<Rightarrow> (Inr (a, b), s1, tr3 @ [summary_notice a b]))"
    using loop
    by (simp add: send_bulk_emails_def Let_def effective_limit_def effective_total_def
             split: sum.splits)
  show "schedule tr' = schedule tr @ plan ?tot delay 0 (allowed ?mx 0 cs)"
    using assms unf eff sch2
    by (cases r1) (auto simp: schedule_append schedule_Cons schedule_Nil step_of_notices)
  show "case r of
           Inl e \<Rightarrow> \<not> completes ?tot delay 0 (allowed ?mx 0 cs)
         | Inr (sent, failed) \<Rightarrow>
             completes ?tot delay 0 (allowed ?mx 0 cs)
             \<and> sent + failed = reach ?tot delay 0 (allowed ?mx 0 cs)"
    using assms unf eff
    by (cases r1) auto
qed

lemma reach_le: "reach tot delay i cs \<le> length cs"
  by (induction cs arbitrary: i) auto


lemma iterations_plan:
  "filter (\<lambda>s. \<not> is_pause s) (plan tot delay i cs) = map visit (take (reach tot delay i cs) cs)"
  by (induction cs arbitrary: i) (auto simp: pass_def visit_def split: option.splits)







lemma processed_extend:
  "schedule tr' = schedule tr @ X \<Longrightarrow> processed tr tr' = length (filter (\<lambda>s. \<not> is_pause s) X)"
  by (simp add: processed_def iterations_def)







lemma length_allowed:
  "length (allowed mx 0 cs) = (case mx of None \<Rightarrow> length cs | Some m \<Rightarrow> min (length cs) (nat m))"
  by (simp add: allowed_def split: option.splits)



lemma braced_here_dropWhile:
  "braced_here ds \<Longrightarrow> dropWhile is_id_char ds = CHR ''}'' # tl (dropWhile is_id_char ds)"
  by (auto simp: braced_here_def split: list.splits)

lemma scan_covers: "concat (map piece_text (scan t)) = t"
proof (induction t rule: scan.induct)
  case 1
  show ?case by simp
next
  case (2 c cs)
  show ?case
  proof (cases "c = CHR ''$''")
    case False
    with 2(1) show ?thesis by simp
  next
    case dollar: True
    show ?thesis
    proof (cases cs)
      case Nil
      with dollar show ?thesis by simp
    next
      case (Cons d ds)
      show ?thesis
      proof (cases "d = CHR ''$''")
        case True
        with 2(2) [OF _ Cons] dollar Cons show ?thesis by simp
      next
        case not_escaped: False
        show ?thesis
        proof (cases "is_id_start d")
          case True
          from 2(3) [OF _ Cons not_escaped True] dollar
          have "concat (map piece_text (scan (dropWhile is_id_char cs))) = dropWhile is_id_char cs"
            by simp
          moreover have "scan (c # cs)
              = Match (Named (takeWhile is_id_char cs)) # scan (dropWhile is_id_char cs)"
            using dollar Cons not_escaped True by simp
          ultimately show ?thesis using dollar by simp
        next
          case not_named: False
          show ?thesis
          proof (cases "d = CHR ''{'' \<and> braced_here ds")
            case True
            from 2(4) [OF _ Cons not_escaped not_named True] dollar
            have ih: "concat (map piece_text (scan (tl (dropWhile is_id_char ds))))
                      = tl (dropWhile is_id_char ds)"
              by simp
            have sc: "scan (c # cs)
                = Match (Braced (takeWhile is_id_char ds)) # scan (tl (dropWhile is_id_char ds))"
              using dollar Cons not_escaped not_named True by simp
            have "takeWhile is_id_char ds @ CHR ''}'' # tl (dropWhile is_id_char ds) = ds"
              using braced_here_dropWhile [of ds] True takeWhile_dropWhile_id [of is_id_char ds]
              by simp
            with ih sc dollar Cons True show ?thesis by simp
          next
            case False
            from 2(5) [OF _ Cons not_escaped not_named False] dollar
            have "concat (map piece_text (scan cs)) = cs"
              by simp
            moreover have "scan (c # cs) = Match Invalid # scan cs"
              using dollar Cons not_escaped not_named False by auto
            ultimately show ?thesis using dollar by simp
          qed
        qed
      qed
    qed
  qed
qed

lemma replace_placeholder:
  "replace m (Match (Named n)) = (case m n of Some v \<Rightarrow> py_str v | None \<Rightarrow> piece_text (Match (Named n)))"
  "replace m (Match (Braced n)) = (case m n of Some v \<Rightarrow> py_str v | None \<Rightarrow> piece_text (Match (Braced n)))"
  by (simp_all split: option.splits)

lemma replace_unchanged:
  assumes "p \<noteq> Match Escaped"
    and "\<And>n. p = Match (Named n) \<or> p = Match (Braced n) \<Longrightarrow> m n = None"
  shows "replace m p = piece_text p"
proof (cases p)
  case (Text c)
  then show ?thesis by simp
next
  case (Match mo)
  with assms show ?thesis by (cases mo) simp_all
qed

lemma connect_extends: "connect E s tr = (b, s', tr') \<Longrightarrow> take (length tr) tr' = tr"
  by (auto simp: connect_def Let_def split: connect_outcome.splits)

lemma send_email_starts:
  assumes "send_email E s f t su h x tr = (b, s', tr')"
  shows "take (Suc (length tr)) tr' = tr @ [CallSendEmail f t su h x]"
proof -
  let ?tr0 = "tr @ [CallSendEmail f t su h x]"
  obtain c s1 tr1 where
    c: "(case smtp_session s of None \<Rightarrow> connect E s ?tr0 | Some _ \<Rightarrow> (True, s, ?tr0)) = (c, s1, tr1)"
    by (metis prod_cases3)
  have t1: "take (length ?tr0) tr1 = ?tr0"
    using c connect_extends [of E s ?tr0 c s1 tr1]
    by (auto split: option.splits)
  from assms c obtain more where "tr' = tr1 @ more"
    by (auto simp: send_email_def Let_def split: option.splits if_splits)
  with t1 have "take (length ?tr0) tr' = ?tr0"
    by (metis append_eq_conv_conj append.assoc append_take_drop_id)
  then show ?thesis by simp
qed

lemma substitute_unknown_unchanged:
  assumes unknown: "\<forall>p \<in> set (scan template). p \<noteq> Match Escaped
                   \<and> (\<forall>n. p = Match (Named n) \<or> p = Match (Braced n) \<longrightarrow> contact n = None)"
  shows "safe_substitute template contact = template"
proof -
  have eq: "map (replace contact) (scan template) = map piece_text (scan template)"
  proof (rule map_cong [OF refl])
    fix p
    assume p: "p \<in> set (scan template)"
    show "replace contact p = piece_text p"
    proof (rule replace_unchanged)
      from unknown p show "p \<noteq> Match Escaped" by blast
    next
      fix n
      assume "p = Match (Named n) \<or> p = Match (Braced n)"
      with unknown p show "contact n = None" by blast
    qed
  qed
  have "safe_substitute template contact = concat (map piece_text (scan template))"
    unfolding safe_substitute_def eq ..
  then show ?thesis
    by (simp only: scan_covers)
qed

lemma loop_body_hands_over:
  assumes r: "recipient contact = Some t"
  shows "take (Suc (length tr))
           (snd (snd (snd (snd (loop_body E f su h x delay tot i contact (sent, failed, s, tr))))))
         = tr @ [CallSendEmail f t (safe_substitute su contact) (Some (safe_substitute h contact))
                   (case x of
                      None \<Rightarrow> None
                    | Some y \<Rightarrow> if y = [] then None else Some (safe_substitute y contact))]"
proof -
  let ?x = "case x of None \<Rightarrow> None
            | Some y \<Rightarrow> if y = [] then None else Some (safe_substitute y contact)"
  let ?call = "CallSendEmail f t (safe_substitute su contact) (Some (safe_substitute h contact)) ?x"
  obtain b s1 tr1 where
    se: "send_email E s f t (safe_substitute su contact) (Some (safe_substitute h contact)) ?x tr
         = (b, s1, tr1)"
    using prod_cases3 by blast
  have xs: "(case x of None \<Rightarrow> None
             | Some y \<Rightarrow> if y = [] then None else personalize_message y contact) = ?x"
    by (simp add: personalize_message_def split: option.splits)
  have body: "snd (snd (snd (snd (loop_body E f su h x delay tot i contact (sent, failed, s, tr)))))
        = (if int i < tot - 1 \<and> delay > 0 \<and> delay < sleep_limit then tr1 @ [Sleep delay] else tr1)"
    unfolding loop_body_def Let_def xs
    using r se by (simp add: personalize_message_def time_sleep_def)
  from send_email_starts [OF se] have t1: "take (Suc (length tr)) tr1 = tr @ [?call]" .
  then have "length (take (Suc (length tr)) tr1) = Suc (length tr)"
    by simp
  then have len: "Suc (length tr) \<le> length tr1"
    by simp
  from t1 len have "take (Suc (length tr)) (tr1 @ [Sleep delay]) = tr @ [?call]"
    by simp
  with body t1 show ?thesis by simp
qed

lemma transport_events_append:
  "transport_events (xs @ ys) = transport_events xs @ transport_events ys"
  by (simp add: transport_events_def)

lemma load_template_quiet:
  "load_template E p tr = (r, tr') \<Longrightarrow> transport_events tr' = transport_events tr"
  by (auto simp: load_template_def transport_events_def split: sum.splits)

lemma load_text_template_quiet:
  "load_text_template E a tr = (r, tr') \<Longrightarrow> transport_events tr' = transport_events tr"
  by (auto simp: load_text_template_def dest: load_template_quiet split: option.splits if_splits)

lemma load_contacts_quiet:
  "load_contacts E a tr = (r, tr') \<Longrightarrow> transport_events tr' = transport_events tr"
  by (auto simp: load_contacts_def get_contacts_from_csv_def get_contacts_from_sqlite_def
                 transport_events_def Let_def
           split: source.splits sum.splits)


lemma disconnect_trace:
  "smtp_session s = None \<Longrightarrow> snd (disconnect E s tr) = tr"
  "smtp_session s \<noteq> None \<Longrightarrow> take (Suc (length tr)) (snd (disconnect E s tr)) = tr @ [SmtpQuit]"
  by (auto simp: disconnect_def split: option.splits)

section \<open>The claims\<close>







text \<open>
  C3, as stated, fails in its bound: with \<^verbatim>\<open>max_emails = -2\<close> (test mode off) and one contact
  the loop processes no contact, while \<open>min(1, -2)\<close> is negative.
\<close>

theorem processed_bound_negative_limit:
  "\<not> int (processed []
            (snd (snd (send_bulk_emails reliable (new_sender example_args) ''me@example.org''
                         [bob] ''Bonjour'' ''<p>Bonjour</p>'' None 0 False (Some (- 2)) []))))
     \<le> min (int (length [bob])) (- 2)"
  by code_simp

text \<open>
  C3, amended. In every run that returns a tally, sent + failed = number of contacts
  iterated; in every run, returning or not, the number of contacts iterated is at most the
  number of contacts available, at most \<open>max(0, maxEmails)\<close> when \<^verbatim>\<open>max_emails\<close> is provided,
  and at most 3 in test mode; and one pass of the loop body increments exactly one of the two
  counters, by one, whatever its outcome.
\<close>

theorem tally_matches_iterations:
  assumes "send_bulk_emails E s f contacts su h x delay test mx tr = (r, s', tr')"
  shows "(case r of Inl e \<Rightarrow> True | Inr (sent, failed) \<Rightarrow> sent + failed = processed tr tr')
       \<and> processed tr tr' \<le> length contacts
       \<and> (case mx of None \<Rightarrow> True | Some m \<Rightarrow> int (processed tr tr') \<le> max 0 m)
       \<and> (if test then processed tr tr' \<le> 3 else True)
       \<and> (case loop_body E f su h x delay tot i c (a, b, s0, tr0) of
            (r1, a', b', s1, tr1) \<Rightarrow> (a' = Suc a \<and> b' = b) \<or> (a' = a \<and> b' = Suc b))"
proof -
  let ?A = "allowed (effective_limit test mx) 0 contacts"
  let ?k = "reach (effective_total test mx (length contacts)) delay 0 ?A"
  note sch = send_bulk_effect(1) [OF assms]
  note out = send_bulk_effect(2) [OF assms]
  have k: "?k \<le> length ?A"
    by (rule reach_le)
  have pr: "processed tr tr' = ?k"
    using processed_extend [OF sch] k by (simp add: iterations_plan)
  have len: "length ?A
             = (case effective_limit test mx of
                  None \<Rightarrow> length contacts
                | Some m \<Rightarrow> min (length contacts) (nat m))"
    by (rule length_allowed)
  have b0: "case r of Inl e \<Rightarrow> True | Inr (sent, failed) \<Rightarrow> sent + failed = processed tr tr'"
    using out pr by (cases r) auto
  have b1: "processed tr tr' \<le> length contacts"
    using pr k len by (simp split: option.splits)
  have b2: "case mx of None \<Rightarrow> True | Some m \<Rightarrow> int (processed tr tr') \<le> max 0 m"
    using pr k len by (auto simp: effective_limit_def split: option.splits if_splits)
  have b3: "if test then processed tr tr' \<le> 3 else True"
    using pr k len by (auto simp: effective_limit_def split: option.splits if_splits)
  have b4: "case loop_body E f su h x delay tot i c (a, b, s0, tr0) of
              (r1, a', b', s1, tr1) \<Rightarrow> (a' = Suc a \<and> b' = b) \<or> (a' = a \<and> b' = Suc b)"
  proof -
    obtain r1 a' b' s1 tr1 where
      body: "loop_body E f su h x delay tot i c (a, b, s0, tr0) = (r1, a', b', s1, tr1)"
      using prod_cases5 by blast
    from loop_body_effect(2) [OF body] body show ?thesis by simp
  qed
  from b0 b1 b2 b3 b4 show ?thesis by simp
qed

theorem tally_matches_iterations_witness:
  "fst (send_bulk_emails unreachable (new_sender example_args) ''me@example.org''
          [alice, anonymous, bob] ''Bonjour $name'' ''<p>$name</p>'' None 5 False (Some 2) [])
     = Inr (0, 2)
   \<and> processed []
        (snd (snd (send_bulk_emails unreachable (new_sender example_args) ''me@example.org''
           [alice, anonymous, bob] ''Bonjour $name'' ''<p>$name</p>'' None 5 False (Some 2) [])))
     = 2"
proof -
  let ?r = "send_bulk_emails unreachable (new_sender example_args) ''me@example.org''
              [alice, anonymous, bob] ''Bonjour $name'' ''<p>$name</p>'' None 5 False (Some 2) []"
  have run: "?r = (fst ?r, fst (snd ?r), snd (snd ?r))"
    by simp
  have tally: "fst ?r = Inr (0, 2)"
    by code_simp
  from tally_matches_iterations [OF run]
  have "case fst ?r of Inl e \<Rightarrow> True
        | Inr (sent, failed) \<Rightarrow> sent + failed = processed [] (snd (snd ?r))"
    by blast
  with tally show ?thesis by simp
qed

text \<open>
  C4. A contact whose \<^verbatim>\<open>email\<close> field is absent, \<^verbatim>\<open>None\<close> or empty is counted as failed and
  never reaches the transport: the pass of the loop body for it increments \<^verbatim>\<open>failed_count\<close>,
  leaves \<^verbatim>\<open>sent_count\<close> and the sender untouched, and adds the warning to the trace and no
  transport event; when the loop comes to such a contact, it goes on with the next one from
  that state. A run on the single contact \<^verbatim>\<open>{"email": "", "name": "A"}\<close> returns the tally
  (0, 1), its trace being the start notice, the warning and the summary.
\<close>

theorem missing_email_counted_failed:
  assumes "contact ''email'' = None \<or> contact ''email'' = Some PyNone
           \<or> contact ''email'' = Some (PyStr [])"
  shows "loop_body E f su h x delay tot i contact (sent, failed, s, tr)
           = (Inr (), sent, Suc failed, s, tr @ [warning_no_email i])
       \<and> transport_events (tr @ [warning_no_email i]) = transport_events tr
       \<and> (\<not> limit_reached mx i \<longrightarrow>
            bulk_loop E f su h x delay mx tot i (contact # rest) (sent, failed, s, tr)
            = bulk_loop E f su h x delay mx tot (Suc i) rest
                (sent, Suc failed, s, tr @ [warning_no_email i]))
       \<and> send_bulk_emails E s f [anonymous] su h x delay False None tr
           = (Inr (0, 1), s, tr @ [start_notice 1, warning_no_email 0, summary_notice 0 1])"
proof -
  from assms have none: "recipient contact = None"
    by (auto simp: recipient_def)
  then have body: "loop_body E f su h x delay tot i contact (sent, failed, s, tr)
                   = (Inr (), sent, Suc failed, s, tr @ [warning_no_email i])"
    by (simp add: loop_body_def Let_def)
  have quiet: "transport_events (tr @ [warning_no_email i]) = transport_events tr"
    by (simp add: transport_events_def warning_no_email_def)
  from body
  have loop: "\<not> limit_reached mx i \<longrightarrow>
              bulk_loop E f su h x delay mx tot i (contact # rest) (sent, failed, s, tr)
              = bulk_loop E f su h x delay mx tot (Suc i) rest
                  (sent, Suc failed, s, tr @ [warning_no_email i])"
    by simp
  have "recipient anonymous = None"
    by (simp add: recipient_def anonymous_def)
  then have run: "send_bulk_emails E s f [anonymous] su h x delay False None tr
                  = (Inr (0, 1), s, tr @ [start_notice 1, warning_no_email 0, summary_notice 0 1])"
    by (simp add: send_bulk_emails_def Let_def limit_reached_def loop_body_def)
  from body quiet loop run show ?thesis by simp
qed

theorem missing_email_counted_failed_witness:
  "anonymous ''email'' = Some (PyStr [])
   \<and> loop_body reliable ''me@example.org'' ''Bonjour $name'' ''<p>$name</p>'' None 5 2 1 anonymous
        (1, 0, new_sender example_args, [])
      = (Inr (), 1, 1, new_sender example_args, [warning_no_email 1])
   \<and> bulk_loop reliable ''me@example.org'' ''Bonjour $name'' ''<p>$name</p>'' None 5 (Some 2) 2 1
        [anonymous] (1, 0, new_sender example_args, [])
      = (Inr (), 1, 1, new_sender example_args, [warning_no_email 1])
   \<and> transport_events [warning_no_email 1] = []"
proof -
  have e: "anonymous ''email'' = None \<or> anonymous ''email'' = Some PyNone
           \<or> anonymous ''email'' = Some (PyStr [])"
    by (simp add: anonymous_def)
  have l: "\<not> limit_reached (Some 2) 1"
    by (simp add: limit_reached_def)
  from missing_email_counted_failed [where contact = anonymous and mx = "Some 2" and i = 1
         and E = reliable and f = "''me@example.org''" and su = "''Bonjour $name''"
         and h = "''<p>$name</p>''" and x = None and delay = 5 and tot = 2 and sent = 1
         and failed = 0 and s = "new_sender example_args" and tr = "[]" and rest = "[]"] e l
  have "loop_body reliable ''me@example.org'' ''Bonjour $name'' ''<p>$name</p>'' None 5 2 1 anonymous
          (1, 0, new_sender example_args, [])
        = (Inr (), 1, 1, new_sender example_args, [warning_no_email 1])
        \<and> transport_events ([] @ [warning_no_email 1]) = transport_events []
        \<and> bulk_loop reliable ''me@example.org'' ''Bonjour $name'' ''<p>$name</p>'' None 5 (Some 2) 2 1
             [anonymous] (1, 0, new_sender example_args, [])
           = (Inr (), 1, 1, new_sender example_args, [warning_no_email 1])"
    by simp
  then show ?thesis by (simp add: anonymous_def transport_events_def)
qed




text \<open>
  C6. Personalisation never fails and passes unknown placeholders through. The pieces that
  the placeholder pattern cuts a template into cover the template exactly, and the output is
  the concatenation of their replacements: a placeholder \<^verbatim>\<open>$name\<close> or \<^verbatim>\<open>${name}\<close> whose name
  is a field of the contact is replaced by \<^verbatim>\<open>str\<close> of the field's value, and one whose name is
  no field is replaced by its own text. So a template whose placeholders all name no field
  (and which has no \<^verbatim>\<open>$$\<close> escape) comes out unchanged. \<^verbatim>\<open>personalize_message\<close> always returns
  the substituted string, never \<^verbatim>\<open>None\<close>; and the subject, the HTML body and the text body
  (when a non-empty text template is given) that the loop hands to \<^verbatim>\<open>send_email\<close> are these
  substitutions.
\<close>

theorem personalization_safe:
  "concat (map piece_text (scan template)) = template
   \<and> safe_substitute template contact = concat (map (replace contact) (scan template))
   \<and> (\<forall>p \<in> set (scan template). \<forall>n. p = Match (Named n) \<or> p = Match (Braced n) \<longrightarrow>
         replace contact p = (case contact n of Some v \<Rightarrow> py_str v | None \<Rightarrow> piece_text p))
   \<and> ((\<forall>p \<in> set (scan template). p \<noteq> Match Escaped
           \<and> (\<forall>n. p = Match (Named n) \<or> p = Match (Braced n) \<longrightarrow> contact n = None))
        \<longrightarrow> safe_substitute template contact = template)
   \<and> personalize_message template contact = Some (safe_substitute template contact)
   \<and> (\<forall>t. recipient contact = Some t \<longrightarrow>
         take (Suc (length tr))
           (snd (snd (snd (snd (loop_body E f su h x delay tot i contact (sent, failed, s, tr))))))
         = tr @ [CallSendEmail f t (safe_substitute su contact) (Some (safe_substitute h contact))
                   (case x of
                      None \<Rightarrow> None
                    | Some y \<Rightarrow> if y = [] then None else Some (safe_substitute y contact))])"
proof (intro conjI)
  show "concat (map piece_text (scan template)) = template"
    by (rule scan_covers)
next
  show "safe_substitute template contact = concat (map (replace contact) (scan template))"
    by (simp only: safe_substitute_def)
next
  show "\<forall>p \<in> set (scan template). \<forall>n. p = Match (Named n) \<or> p = Match (Braced n) \<longrightarrow>
          replace contact p = (case contact n of Some v \<Rightarrow> py_str v | None \<Rightarrow> piece_text p)"
    by (auto split: option.splits)
next
  show "(\<forall>p \<in> set (scan template). p \<noteq> Match Escaped
           \<and> (\<forall>n. p = Match (Named n) \<or> p = Match (Braced n) \<longrightarrow> contact n = None))
        \<longrightarrow> safe_substitute template contact = template"
    using substitute_unknown_unchanged [of template contact] by blast
next
  show "personalize_message template contact = Some (safe_substitute template contact)"
    by (simp only: personalize_message_def)
next
  show "\<forall>t. recipient contact = Some t \<longrightarrow>
         take (Suc (length tr))
           (snd (snd (snd (snd (loop_body E f su h x delay tot i contact (sent, failed, s, tr))))))
         = tr @ [CallSendEmail f t (safe_substitute su contact) (Some (safe_substitute h contact))
                   (case x of
                      None \<Rightarrow> None
                    | Some y \<Rightarrow> if y = [] then None else Some (safe_substitute y contact))]"
    using loop_body_hands_over [of contact] by blast
qed

theorem personalization_safe_witness:
  "safe_substitute ''$unknown_field, ${nope} $9 $'' alice = ''$unknown_field, ${nope} $9 $''
   \<and> safe_substitute ''Cher $name ${name}s: $unknown_field co$$t'' alice
       = ''Cher Alice Alices: $unknown_field co$t''
   \<and> personalize_message ''Cher $name'' anonymous = Some ''Cher A''"
proof -
  have sc: "scan ''$unknown_field, ${nope} $9 $''
            = [Match (Named ''unknown_field''), Text CHR '','', Text CHR '' '',
               Match (Braced ''nope''), Text CHR '' '', Match Invalid, Text CHR ''9'',
               Text CHR '' '', Match Invalid]"
    by code_simp
  have "\<forall>p \<in> set (scan ''$unknown_field, ${nope} $9 $''). p \<noteq> Match Escaped
          \<and> (\<forall>n. p = Match (Named n) \<or> p = Match (Braced n) \<longrightarrow> alice n = None)"
    unfolding sc by (simp add: alice_def)
  with personalization_safe [of "''$unknown_field, ${nope} $9 $''" alice]
  have a: "safe_substitute ''$unknown_field, ${nope} $9 $'' alice = ''$unknown_field, ${nope} $9 $''"
    by blast
  have b: "safe_substitute ''Cher $name ${name}s: $unknown_field co$$t'' alice
           = ''Cher Alice Alices: $unknown_field co$t''"
    by code_simp
  have c: "personalize_message ''Cher $name'' anonymous = Some ''Cher A''"
    by code_simp
  from a b c show ?thesis by simp
qed




text \<open>
  C8. Loading contacts never raises: when reading the CSV file or querying the database fails
  with an exception, the loader logs an error and returns the empty list. When the loaded
  list is empty (after a failure or because the source has no row) \<^verbatim>\<open>main\<close> logs an error and
  returns at once: nothing is added to the trace after it, and the whole run has no transport
  event, so no send is attempted.
\<close>

theorem load_failure_gives_no_contacts:
  "(csv_rows E p tr = Inl e \<longrightarrow>
      get_contacts_from_csv E p tr
      = ([], tr @ [ReadCsv p, Log ERROR (''Erreur lors du chargement du fichier CSV: '' @ e)]))
   \<and> (sqlite_rows E p (case q of None \<Rightarrow> ''SELECT * FROM contacts WHERE active = 1'' | Some u \<Rightarrow> u) tr
        = Inl e \<longrightarrow>
      get_contacts_from_sqlite E p q tr
      = ([], tr @ [QuerySqlite p (case q of None \<Rightarrow> ''SELECT * FROM contacts WHERE active = 1''
                                  | Some u \<Rightarrow> u),
                   Log ERROR (''Erreur lors de la connexion '' @ [a_grave] @ '' la base SQLite: '' @ e)]))
   \<and> (load_template E (arg_template a) tr = (Some html, tr1) \<and> html \<noteq> []
        \<and> load_text_template E a tr1 = (x, tr2) \<and> load_contacts E a tr2 = ([], tr3) \<longrightarrow>
      main E a tr = (Inr (), tr3 @ [no_contact_error])
      \<and> transport_events (tr3 @ [no_contact_error]) = transport_events tr)"
proof (intro conjI impI)
  assume "csv_rows E p tr = Inl e"
  then show "get_contacts_from_csv E p tr
      = ([], tr @ [ReadCsv p, Log ERROR (''Erreur lors du chargement du fichier CSV: '' @ e)])"
    by (simp add: get_contacts_from_csv_def)
next
  assume "sqlite_rows E p (case q of None \<Rightarrow> ''SELECT * FROM contacts WHERE active = 1'' | Some u \<Rightarrow> u) tr
        = Inl e"
  then show "get_contacts_from_sqlite E p q tr
      = ([], tr @ [QuerySqlite p (case q of None \<Rightarrow> ''SELECT * FROM contacts WHERE active = 1''
                                  | Some u \<Rightarrow> u),
                   Log ERROR (''Erreur lors de la connexion '' @ [a_grave] @ '' la base SQLite: '' @ e)])"
    by (simp add: get_contacts_from_sqlite_def Let_def)
next
  assume loaded: "load_template E (arg_template a) tr = (Some html, tr1) \<and> html \<noteq> []
        \<and> load_text_template E a tr1 = (x, tr2) \<and> load_contacts E a tr2 = ([], tr3)"
  then show "main E a tr = (Inr (), tr3 @ [no_contact_error])"
    by (simp add: main_def)
  from loaded have "transport_events tr3 = transport_events tr"
    using load_template_quiet [of E "arg_template a" tr "Some html" tr1]
          load_text_template_quiet [of E a tr1 x tr2]
          load_contacts_quiet [of E a tr2 "[]" tr3]
    by simp
  then show "transport_events (tr3 @ [no_contact_error]) = transport_events tr"
    by (simp add: transport_events_def no_contact_error_def)
qed

theorem load_failure_gives_no_contacts_witness:
  "main unreachable example_args []
   = (Inr (), [ReadFile ''mail.html'', ReadCsv ''contacts.csv'',
               Log ERROR ''Erreur lors du chargement du fichier CSV: No such file'',
               no_contact_error])
   \<and> transport_events (snd (main unreachable example_args [])) = []"
proof -
  let ?tr3 = "[ReadFile ''mail.html'', ReadCsv ''contacts.csv'',
               Log ERROR ''Erreur lors du chargement du fichier CSV: No such file'']"
  have csv: "csv_rows unreachable ''contacts.csv'' [ReadFile ''mail.html''] = Inl ''No such file''"
    by (simp add: unreachable_def)
  from load_failure_gives_no_contacts [where E = unreachable and p = "''contacts.csv''"
         and tr = "[ReadFile ''mail.html'']" and e = "''No such file''"] csv
  have rows: "get_contacts_from_csv unreachable ''contacts.csv'' [ReadFile ''mail.html'']
              = ([], ?tr3)"
    by simp
  have "load_template unreachable (arg_template example_args) []
          = (Some ''<p>Bonjour $name</p>'', [ReadFile ''mail.html''])
        \<and> ''<p>Bonjour $name</p>'' \<noteq> []
        \<and> load_text_template unreachable example_args [ReadFile ''mail.html'']
            = (None, [ReadFile ''mail.html''])
        \<and> load_contacts unreachable example_args [ReadFile ''mail.html''] = ([], ?tr3)"
    using rows
    by (simp add: load_template_def load_text_template_def load_contacts_def unreachable_def
                  example_args_def)
  with load_failure_gives_no_contacts [where E = unreachable and a = example_args and tr = "[]"
         and html = "''<p>Bonjour $name</p>''" and ?tr1.0 = "[ReadFile ''mail.html'']" and x = None
         and ?tr2.0 = "[ReadFile ''mail.html'']" and ?tr3.0 = ?tr3]
  have "main unreachable example_args [] = (Inr (), ?tr3 @ [no_contact_error])
        \<and> transport_events (?tr3 @ [no_contact_error]) = transport_events []"
    by blast
  then show ?thesis
    by (simp add: transport_events_def)
qed

text \<open>
  C9. Every run of \<^verbatim>\<open>main\<close> that reaches the send loop (a non-empty HTML template, a non-empty
  contact list) ends with \<^verbatim>\<open>disconnect\<close>, applied to the sender and the trace that the bulk
  send leaves, whether \<^verbatim>\<open>send_bulk_emails\<close> returned or ended partway with an exception:
  with a session object present the next event after the loop's is \<^verbatim>\<open>quit\<close>, without one
  there is nothing to close and nothing is added. The outcome of \<^verbatim>\<open>main\<close> is the exception
  of \<^verbatim>\<open>disconnect\<close> if it raises, otherwise the exception of the bulk send if it raised,
  otherwise a normal return.
\<close>

theorem session_closed_after_send_loop:
  assumes "load_template E (arg_template a) tr = (Some html, tr1)"
    and "html \<noteq> []"
    and "load_text_template E a tr1 = (x, tr2)"
    and "load_contacts E a tr2 = (contacts, tr3)"
    and "contacts \<noteq> []"
    and "send_bulk_emails E (new_sender a) (arg_from_email a) contacts (arg_subject a) html x
           (arg_delay a) (arg_test a) (arg_max_emails a) tr3 = (r, s4, tr4)"
  shows "snd (main E a tr) = snd (disconnect E s4 tr4)
       \<and> fst (main E a tr)
           = (case fst (disconnect E s4 tr4) of
                Inl e \<Rightarrow> Inl e
              | Inr u \<Rightarrow> (case r of Inl e \<Rightarrow> Inl e | Inr tally \<Rightarrow> Inr ()))
       \<and> (smtp_session s4 = None \<longrightarrow> snd (main E a tr) = tr4)
       \<and> (smtp_session s4 \<noteq> None \<longrightarrow>
            take (Suc (length tr4)) (snd (main E a tr)) = tr4 @ [SmtpQuit])"
proof -
  let ?body = "case r of Inl e \<Rightarrow> Inl e | Inr tally \<Rightarrow> Inr ()"
  have phase: "send_phase E a contacts html x (new_sender a, tr3) = (?body, s4, tr4)"
    using assms(6) by (cases r) (simp_all add: send_phase_def)
  have fin: "try_finally (send_phase E a contacts html x) (close_phase E) (new_sender a, tr3)
             = (case fst (disconnect E s4 tr4) of Inl e \<Rightarrow> Inl e | Inr u \<Rightarrow> ?body,
                s4, snd (disconnect E s4 tr4))"
    using phase
    by (cases "disconnect E s4 tr4")
       (auto simp: try_finally_def close_phase_def split: sum.splits)
  have m: "main E a tr
           = (case fst (disconnect E s4 tr4) of Inl e \<Rightarrow> Inl e | Inr u \<Rightarrow> ?body,
              snd (disconnect E s4 tr4))"
    using assms(1-5) fin by (simp add: main_def)
  from m disconnect_trace [where s = s4 and E = E and tr = tr4] show ?thesis
    by simp
qed

theorem session_closed_after_send_loop_witness:
  "SmtpQuit \<in> set (snd (main reliable (example_args\<lparr>arg_delay := 10000000000\<rparr>) []))
   \<and> fst (main reliable (example_args\<lparr>arg_delay := 10000000000\<rparr>) [])
       = Inl ''timestamp too large to convert to C _PyTime_t''"
proof -
  let ?a = "example_args\<lparr>arg_delay := 10000000000\<rparr>"
  let ?html = "''<p>Bonjour $name</p>''"
  let ?tr3 = "[ReadFile ''mail.html'', ReadCsv ''contacts.csv'',
               Log INFO ''Chargement de 3 contacts depuis contacts.csv'']"
  let ?r = "send_bulk_emails reliable (new_sender ?a) (arg_from_email ?a)
              [alice, anonymous, bob] (arg_subject ?a) ?html None
              (arg_delay ?a) (arg_test ?a) (arg_max_emails ?a) ?tr3"
  have t: "load_template reliable (arg_template ?a) [] = (Some ?html, [ReadFile ''mail.html''])"
    by (simp add: load_template_def reliable_def example_args_def)
  have h: "?html \<noteq> []"
    by simp
  have x: "load_text_template reliable ?a [ReadFile ''mail.html'']
           = (None, [ReadFile ''mail.html''])"
    by (simp add: load_text_template_def example_args_def)
  have n: "str_nat (Suc (Suc (Suc 0))) = ''3''"
    by code_simp
  have c: "load_contacts reliable ?a [ReadFile ''mail.html''] = ([alice, anonymous, bob], ?tr3)"
    by (simp add: load_contacts_def get_contacts_from_csv_def reliable_def example_args_def n)
  have ne: "[alice, anonymous, bob] \<noteq> []"
    by simp
  have run: "?r = (fst ?r, fst (snd ?r), snd (snd ?r))"
    by simp
  have raised: "fst ?r = Inl ''timestamp too large to convert to C _PyTime_t''"
    by code_simp
  have open_session: "smtp_session (fst (snd ?r)) \<noteq> None"
    by code_simp
  have ok: "fst (disconnect reliable (fst (snd ?r)) (snd (snd ?r))) = Inr ()"
    by (simp add: disconnect_def reliable_def split: option.splits)
  from session_closed_after_send_loop [OF t h x c ne run] open_session
  have m: "fst (main reliable ?a [])
           = (case fst (disconnect reliable (fst (snd ?r)) (snd (snd ?r))) of
                Inl e \<Rightarrow> Inl e
              | Inr u \<Rightarrow> (case fst ?r of Inl e \<Rightarrow> Inl e | Inr tally \<Rightarrow> Inr ()))"
    and q: "take (Suc (length (snd (snd ?r)))) (snd (main reliable ?a []))
            = snd (snd ?r) @ [SmtpQuit]"
    by blast+
  have "SmtpQuit \<in> set (take (Suc (length (snd (snd ?r)))) (snd (main reliable ?a [])))"
    unfolding q by simp
  then have "SmtpQuit \<in> set (snd (main reliable ?a []))"
    by (rule in_set_takeD)
  moreover from m ok raised
  have "fst (main reliable ?a []) = Inl ''timestamp too large to convert to C _PyTime_t''"
    by simp
  ultimately show ?thesis by simp
qed

text \<open>
  C10. When the HTML template file is read without error but is empty, \<^verbatim>\<open>main\<close> stops with
  the template-load error message: the trace gains the read of the template and that error
  line and nothing else, so no contact source is read and nothing is sent. The test is the
  falsiness of the content, not the failure of the read.
\<close>

theorem empty_template_aborts:
  assumes "file_read E (arg_template a) tr = Inr []"
  shows "main E a tr = (Inr (), tr @ [ReadFile (arg_template a), template_error])"
  using assms by (simp add: main_def load_template_def)

theorem empty_template_aborts_witness:
  "file_read unreachable (arg_template (example_args\<lparr>arg_template := ''empty.html''\<rparr>)) [] = Inr []
   \<and> main unreachable (example_args\<lparr>arg_template := ''empty.html''\<rparr>) []
       = (Inr (), [ReadFile ''empty.html'', template_error])"
  using empty_template_aborts [of unreachable "example_args\<lparr>arg_template := ''empty.html''\<rparr>" "[]"]
  by (simp add: unreachable_def example_args_def)

end
